theory Spec2Isabelle
  imports Main
begin

chapter \<open>The Claimify MCP server: model of the code and of the pipeline it calls\<close>

section \<open>Python values used by the server\<close>

text \<open>
  A Python \<open>str\<close> is modelled as a \<open>string\<close>: the list of its code points, each
  below 256 (one \<open>char\<close> per code point). A \<open>dict\<close> with string keys and string
  values is a map; \<open>os.environ\<close> is such a map.
\<close>

type_synonym environ = "string \<rightharpoonup> string"

text \<open>\<open>d.get(key, default)\<close> and \<open>os.getenv(key, default)\<close>.\<close>

definition dict_get :: "(string \<rightharpoonup> string) \<Rightarrow> string \<Rightarrow> string \<Rightarrow> string" where
  "dict_get d key dflt = (case d key of None \<Rightarrow> dflt | Some v \<Rightarrow> v)"

text \<open>
  \<open>not os.getenv(key)\<close>: \<open>os.getenv\<close> gives \<open>None\<close> for an unset variable, and both
  \<open>None\<close> and the empty string are false in a condition.
\<close>

definition not_getenv :: "environ \<Rightarrow> string \<Rightarrow> bool" where
  "not_getenv env key = (case env key of None \<Rightarrow> True | Some v \<Rightarrow> v = [])"

text \<open>
  \<open>str.lower()\<close> on code points below 256: the letters A to Z and the capital
  letters of the Latin-1 supplement (192 to 222, without the multiplication sign 215)
  move up by 32; every other code point stays.
\<close>

definition lower_char :: "char \<Rightarrow> char" where
  "lower_char c =
     (let n = (of_char c :: nat)
      in if (65 \<le> n \<and> n \<le> 90) \<or> (192 \<le> n \<and> n \<le> 222 \<and> n \<noteq> 215)
         then char_of (n + 32) else c)"

definition lower :: "string \<Rightarrow> string" where
  "lower s = map lower_char s"

section \<open>Startup: \<open>main\<close> of \<open>claimify_server.py\<close>\<close>

text \<open>
  What \<open>main\<close> does, in order: lines printed to stderr, then either \<open>sys.exit\<close>
  or the entry into \<open>server.run\<close> over stdio, the only place where tool calls are
  accepted.
\<close>

datatype action = Print_stderr string | Sys_exit int | Server_run

definition main :: "environ \<Rightarrow> action list" where
  "main env =
     (let provider = lower (dict_get env ''LLM_PROVIDER'' ''openai'')
      in if provider = ''openai'' \<and> not_getenv env ''OPENAI_API_KEY'' then
           [Print_stderr ''ERROR: OPENAI_API_KEY environment variable not set.'',
            Print_stderr ''Please create a .env file with your API key or set the environment variable.'',
            Sys_exit 1]
         else if provider = ''anthropic'' \<and> not_getenv env ''ANTHROPIC_API_KEY'' then
           [Print_stderr ''ERROR: ANTHROPIC_API_KEY environment variable not set.'',
            Print_stderr ''Please create a .env file with your API key or set the environment variable.'',
            Sys_exit 1]
         else
           [Print_stderr ''Starting Claimify MCP Server...'',
            Print_stderr (''LLM Provider: '' @ provider),
            Print_stderr (''Model: '' @ dict_get env ''LLM_MODEL'' ''gpt-4o''),
            Print_stderr ''Server is ready to accept connections via stdio.'',
            Server_run])"

section \<open>Exceptions\<close>

text \<open>
  A raised exception is a value. \<open>ValueError\<close>, \<open>IndexError\<close> and \<open>Exception\<close>
  (any other instance of the class \<open>Exception\<close>) are caught by \<open>except Exception\<close>;
  \<open>BaseException\<close> stands for the exceptions outside that class (\<open>SystemExit\<close>,
  \<open>KeyboardInterrupt\<close>), which pass through such a handler. Each carries the text
  that \<open>str(e)\<close> returns.
\<close>

datatype error = ValueError string | IndexError string | Exception string | BaseException string

fun is_Exception :: "error \<Rightarrow> bool" where
  "is_Exception (BaseException m) = False"
| "is_Exception e = True"

fun str_of :: "error \<Rightarrow> string" where
  "str_of (ValueError m) = m"
| "str_of (IndexError m) = m"
| "str_of (Exception m) = m"
| "str_of (BaseException m) = m"

section \<open>\<open>json.dumps(claims, indent=2)\<close> for a list of strings\<close>

text \<open>\<open>sep.join(xs)\<close>.\<close>

fun join :: "string \<Rightarrow> string list \<Rightarrow> string" where
  "join sep [] = []"
| "join sep [x] = x"
| "join sep (x # y # ys) = x @ sep @ join sep (y # ys)"

definition hex_digit :: "nat \<Rightarrow> char" where
  "hex_digit n = ''0123456789abcdef'' ! n"

text \<open>
  The encoder escapes with \<open>ensure_ascii\<close> on: backslash and double quote get a
  backslash, the five control characters with a short form use it, every other code
  point outside the range from space to tilde becomes \<open>\u\<close> and four lower-case hex
  digits, and the rest is copied.
\<close>

definition json_escape_char :: "char \<Rightarrow> string" where
  "json_escape_char c =
     (let n = (of_char c :: nat)
      in if c = CHR 0x5C then [CHR 0x5C, CHR 0x5C]
         else if c = CHR 0x22 then [CHR 0x5C, CHR 0x22]
         else if c = CHR 0x08 then [CHR 0x5C, CHR ''b'']
         else if c = CHR 0x0C then [CHR 0x5C, CHR ''f'']
         else if c = CHR 0x0A then [CHR 0x5C, CHR ''n'']
         else if c = CHR 0x0D then [CHR 0x5C, CHR ''r'']
         else if c = CHR 0x09 then [CHR 0x5C, CHR ''t'']
         else if 32 \<le> n \<and> n \<le> 126 then [c]
         else [CHR 0x5C, CHR ''u'', CHR ''0'', CHR ''0'', hex_digit (n div 16), hex_digit (n mod 16)])"

definition json_encode_string :: "string \<Rightarrow> string" where
  "json_encode_string s = [CHR 0x22] @ concat (map json_escape_char s) @ [CHR 0x22]"

text \<open>
  With \<open>indent=2\<close> an empty list is \<open>[]\<close>; otherwise every item is on a line of its
  own behind two spaces, the items are separated by a comma, and the closing bracket is
  on a line of its own.
\<close>

definition json_dumps :: "string list \<Rightarrow> string" where
  "json_dumps claims =
     (if claims = [] then ''[]''
      else ''['' @ [CHR 0x0A] @ ''  ''
           @ join ('','' @ [CHR 0x0A] @ ''  '') (map json_encode_string claims)
           @ [CHR 0x0A] @ '']'')"

subsection \<open>Reading a JSON array of strings\<close>

text \<open>
  What a caller that expects a claim list accepts: a JSON text that is one array whose
  elements are all strings, read left to right by a scanner with one mode per place in
  the grammar. Whitespace is allowed around the brackets, the strings and the commas; a
  string holds no raw control character; an escape is one of the eight short forms or
  \<open>\u\<close> with four hex digits (of a code point below 256, the range of this model).
\<close>

datatype mode =
    Before_array | Array_open | In_string | After_backslash | In_unicode nat nat
  | After_string | After_comma | After_array

definition is_json_ws :: "char \<Rightarrow> bool" where
  "is_json_ws c = (c = CHR 0x20 \<or> c = CHR 0x09 \<or> c = CHR 0x0A \<or> c = CHR 0x0D)"

definition hex_value :: "char \<Rightarrow> nat option" where
  "hex_value c =
     (let n = (of_char c :: nat)
      in if 48 \<le> n \<and> n \<le> 57 then Some (n - 48)
         else if 97 \<le> n \<and> n \<le> 102 then Some (n - 87)
         else if 65 \<le> n \<and> n \<le> 70 then Some (n - 55)
         else None)"

definition unescape :: "char \<Rightarrow> char option" where
  "unescape c =
     (if c = CHR 0x22 \<or> c = CHR 0x5C \<or> c = CHR ''/'' then Some c
      else if c = CHR ''b'' then Some (CHR 0x08)
      else if c = CHR ''f'' then Some (CHR 0x0C)
      else if c = CHR ''n'' then Some (CHR 0x0A)
      else if c = CHR ''r'' then Some (CHR 0x0D)
      else if c = CHR ''t'' then Some (CHR 0x09)
      else None)"

text \<open>
  \<open>scan m done cur cs\<close>: the mode, the strings read so far (last first), the
  characters of the string being read (last first), and the rest of the text.
\<close>

fun scan :: "mode \<Rightarrow> string list \<Rightarrow> string \<Rightarrow> string \<Rightarrow> string list option" where
  "scan m done cur [] = (case m of After_array \<Rightarrow> Some (rev done) | _ \<Rightarrow> None)"
| "scan m done cur (c # cs) =
     (case m of
        Before_array \<Rightarrow>
          if is_json_ws c then scan Before_array done cur cs
          else if c = CHR ''['' then scan Array_open done cur cs
          else None
      | Array_open \<Rightarrow>
          if is_json_ws c then scan Array_open done cur cs
          else if c = CHR 0x22 then scan In_string done [] cs
          else if c = CHR '']'' then scan After_array done cur cs
          else None
      | In_string \<Rightarrow>
          if c = CHR 0x22 then scan After_string (rev cur # done) [] cs
          else if c = CHR 0x5C then scan After_backslash done cur cs
          else if (of_char c :: nat) < 32 then None
          else scan In_string done (c # cur) cs
      | After_backslash \<Rightarrow>
          if c = CHR ''u'' then scan (In_unicode 0 0) done cur cs
          else (case unescape c of
                  None \<Rightarrow> None
                | Some d \<Rightarrow> scan In_string done (d # cur) cs)
      | In_unicode k v \<Rightarrow>
          (case hex_value c of
             None \<Rightarrow> None
           | Some d \<Rightarrow>
               if k < 3 then scan (In_unicode (Suc k) (16 * v + d)) done cur cs
               else if 16 * v + d < 256 then scan In_string done (char_of (16 * v + d) # cur) cs
               else None)
      | After_string \<Rightarrow>
          if is_json_ws c then scan After_string done cur cs
          else if c = CHR '','' then scan After_comma done cur cs
          else if c = CHR '']'' then scan After_array done cur cs
          else None
      | After_comma \<Rightarrow>
          if is_json_ws c then scan After_comma done cur cs
          else if c = CHR 0x22 then scan In_string done [] cs
          else None
      | After_array \<Rightarrow>
          if is_json_ws c then scan After_array done cur cs else None)"

definition json_loads_claims :: "string \<Rightarrow> string list option" where
  "json_loads_claims t = scan Before_array [] [] t"

section \<open>The tool layer: \<open>list_tools\<close> and \<open>call_tool\<close> of \<open>claimify_server.py\<close>\<close>

text \<open>
  The one tool that \<open>list_tools\<close> declares, with the properties of its input schema
  (the description texts are left out). Both properties are of type string, so the
  arguments of a call are a dictionary from strings to strings.
\<close>

record property =
  prop_name :: string
  prop_type :: string
  prop_default :: "string option"

record tool =
  tool_name :: string
  properties :: "property list"
  required :: "string list"

definition list_tools :: "tool list" where
  "list_tools =
     [\<lparr>tool_name = ''extract_claims'',
       properties =
         [\<lparr>prop_name = ''text_to_process'', prop_type = ''string'', prop_default = None\<rparr>,
          \<lparr>prop_name = ''question'', prop_type = ''string'',
           prop_default = Some ''The user did not provide a question.''\<rparr>],
       required = [''text_to_process'']\<rparr>]"

type_synonym arguments = "string \<rightharpoonup> string"

datatype text_content = TextContent (content_type: string) (content_text: string)

subsection \<open>Objects and the calls of the language model\<close>

text \<open>
  The objects that the handler constructs live in a heap, a list in which the address
  of an object is its position: a new object goes to the end, at an address that no
  object had before. An \<open>LLMClient\<close> has no field that the handler reads; a
  \<open>ClaimifyPipeline\<close> holds the address of its client and the question.
\<close>

datatype obj = LLMClient_obj | ClaimifyPipeline_obj nat string

datatype stage = Selection | Disambiguation | Decomposition

text \<open>
  One entry per request sent to the language model: the stage that sent it and the
  index of the sentence it was sent for.
\<close>

type_synonym call = "stage \<times> nat"

record pystate =
  heap :: "obj list"
  calls :: "call list"

definition new_object :: "obj \<Rightarrow> pystate \<Rightarrow> nat \<times> pystate" where
  "new_object ob st = (length (heap st), st\<lparr>heap := heap st @ [ob]\<rparr>)"

text \<open>
  The modules \<open>llm_client\<close> and \<open>pipeline\<close> are imported by the server and are
  parameters here: whether \<open>LLMClient()\<close> raises, whether
  \<open>ClaimifyPipeline(llm_client, question)\<close> raises for a question, and what
  \<open>pipeline.run(text)\<close> does. The run reads the heap and the log of the calls made so
  far, and returns the claims or raises, with the log it leaves.
\<close>

record collaborators =
  LLMClient_init :: "error option"
  ClaimifyPipeline_init :: "string \<Rightarrow> error option"
  ClaimifyPipeline_run ::
    "obj list \<Rightarrow> nat \<Rightarrow> string \<Rightarrow> call list \<Rightarrow> (error + string list) \<times> call list"

definition new_LLMClient :: "collaborators \<Rightarrow> pystate \<Rightarrow> (error + nat) \<times> pystate" where
  "new_LLMClient C st =
     (case LLMClient_init C of
        Some e \<Rightarrow> (Inl e, st)
      | None \<Rightarrow> (case new_object LLMClient_obj st of (a, st') \<Rightarrow> (Inr a, st')))"

definition new_ClaimifyPipeline ::
  "collaborators \<Rightarrow> nat \<Rightarrow> string \<Rightarrow> pystate \<Rightarrow> (error + nat) \<times> pystate" where
  "new_ClaimifyPipeline C llm_client question st =
     (case ClaimifyPipeline_init C question of
        Some e \<Rightarrow> (Inl e, st)
      | None \<Rightarrow>
          (case new_object (ClaimifyPipeline_obj llm_client question) st of
             (a, st') \<Rightarrow> (Inr a, st')))"

definition pipeline_run ::
  "collaborators \<Rightarrow> nat \<Rightarrow> string \<Rightarrow> pystate \<Rightarrow> (error + string list) \<times> pystate" where
  "pipeline_run C pipeline text st =
     (case ClaimifyPipeline_run C (heap st) pipeline text (calls st) of
        (r, log) \<Rightarrow> (r, st\<lparr>calls := log\<rparr>))"

subsection \<open>\<open>call_tool\<close>\<close>

text \<open>
  The body of the \<open>try\<close> block up to the call of \<open>pipeline.run\<close>: the two
  \<open>arguments.get\<close> with their defaults, the two constructions, the run. An exception
  raised by any of them leaves the block at once.
\<close>

definition extract_claims_body ::
  "collaborators \<Rightarrow> arguments \<Rightarrow> pystate \<Rightarrow> (error + string list) \<times> pystate" where
  "extract_claims_body C arguments st =
     (let text_to_process = dict_get arguments ''text_to_process'' [];
          question = dict_get arguments ''question'' ''The user did not provide a question.''
      in case new_LLMClient C st of
           (Inl e, st1) \<Rightarrow> (Inl e, st1)
         | (Inr llm_client, st1) \<Rightarrow>
             (case new_ClaimifyPipeline C llm_client question st1 of
                (Inl e, st2) \<Rightarrow> (Inl e, st2)
              | (Inr pipeline, st2) \<Rightarrow> pipeline_run C pipeline text_to_process st2))"

text \<open>
  The function \<open>call_tool\<close> itself, as lines 65 to 91 define it. The rest of the
  \<open>try\<close> block serialises the claims into one text item; the handler
  \<open>except Exception as e\<close> answers with one text item holding the message instead,
  and an exception outside the class \<open>Exception\<close> passes through it. Any other tool
  name raises \<open>ValueError\<close>. What the decorator of line 64 puts in front of the
  function follows below.
\<close>

definition call_tool ::
  "collaborators \<Rightarrow> pystate \<Rightarrow> string \<Rightarrow> arguments \<Rightarrow> (error + text_content list) \<times> pystate" where
  "call_tool C st name arguments =
     (if name = ''extract_claims'' then
        (case extract_claims_body C arguments st of
           (Inr claims, st') \<Rightarrow> (Inr [TextContent ''text'' (json_dumps claims)], st')
         | (Inl e, st') \<Rightarrow>
             if is_Exception e
             then (Inr [TextContent ''text'' (''Error during claim extraction: '' @ str_of e)], st')
             else (Inl e, st'))
      else (Inl (ValueError (''Unknown tool: '' @ name)), st))"

subsection \<open>The handler as \<open>@server.call_tool()\<close> registers it\<close>

text \<open>
  The decorator \<open>@server.call_tool()\<close> puts the function \<open>call_tool\<close> behind the
  input validation of the MCP server. A call of a tool that \<open>list_tools\<close> declares
  has its arguments checked against the \<open>inputSchema\<close> of the tool first: when a name
  of the list \<open>required\<close> has no value, the call is answered with an error result
  holding \<open>Input validation error: 'name' is a required property\<close>, and the function
  is not called. (The two properties are strings, as the arguments are here, so no
  other check of the schema can fail.) Otherwise the function is called: the content
  it returns becomes a result that is no error, and an \<open>Exception\<close> it raises becomes
  an error result holding its message.
\<close>

datatype call_tool_result = CallToolResult (result_content: "text_content list") (isError: bool)



section \<open>The pipeline behind \<open>pipeline.run\<close>\<close>

text \<open>
  The module \<open>pipeline\<close> (\<open>split_into_sentences\<close>, \<open>create_context_for_sentence\<close>,
  \<open>ClaimifyPipeline\<close>) is imported by the server and by the test script, but its
  source file \<open>pipeline.py\<close> is missing. Every definition of this section is
  modelled from the specification, sections 3, 4, 6 and 7.
\<close>

subsection \<open>Sentence segmentation\<close>

text \<open>
  Python's \<open>s.split(sep)\<close> for a separator of one character, which the test script
  applies to the context and which cuts a text into its lines.
\<close>

fun split_on :: "char \<Rightarrow> string \<Rightarrow> string list" where
  "split_on sep [] = [[]]"
| "split_on sep (c # cs) =
     (if c = sep then [] # split_on sep cs
      else (case split_on sep cs of
              [] \<Rightarrow> [[c]]
            | x # xs \<Rightarrow> (c # x) # xs))"

text \<open>
  Modelled from the spec: the missing \<open>pipeline.py\<close> decides what whitespace is;
  "whitespace-only" (section 4.1) is read with Python's \<open>str.isspace\<close> on code
  points below 256.
\<close>

definition is_space :: "char \<Rightarrow> bool" where
  "is_space c =
     (let n = (of_char c :: nat)
      in (9 \<le> n \<and> n \<le> 13) \<or> (28 \<le> n \<and> n \<le> 32) \<or> n = 133 \<or> n = 160)"

text \<open>
  Modelled from the spec: "empty or whitespace-only" (section 4.1), for a text or a line
  of the text read by the missing \<open>pipeline.py\<close>.
\<close>

definition is_blank :: "string \<Rightarrow> bool" where
  "is_blank s = list_all is_space s"

text \<open>
  Modelled from the spec: \<open>split_into_sentences\<close> of the missing \<open>pipeline.py\<close>,
  the SentenceSegmenter of section 4.1. Every explicit line break is a sentence
  boundary; a line without any text gives no sentence; inside a line the boundaries are
  those of a sentence-boundary detector (a trained one in the repository), which is the
  parameter \<open>detect\<close>. The index of a sentence is its position in the result.
\<close>

definition segment :: "(string \<Rightarrow> string list) \<Rightarrow> string \<Rightarrow> string list" where
  "segment detect text =
     concat (map detect (filter (\<lambda>line. \<not> is_blank line) (split_on (CHR 0x0A) text)))"

subsection \<open>Context window\<close>

text \<open>
  Modelled from the spec: the window of the ContextWindow of section 3 (missing
  \<open>pipeline.py\<close>): the indices from \<open>max(0, i - before)\<close> to
  \<open>min(n - 1, i + after)\<close> inclusive. Indices and sizes are Python integers.
\<close>

definition window_indices :: "int \<Rightarrow> int \<Rightarrow> int \<Rightarrow> int \<Rightarrow> int list" where
  "window_indices n i sentencesBefore sentencesAfter =
     [max 0 (i - sentencesBefore) .. min (n - 1) (i + sentencesAfter)]"

text \<open>
  Modelled from the spec: \<open>create_context_for_sentence\<close> of the missing
  \<open>pipeline.py\<close>, the ContextWindowBuilder of section 4.2. The context is the
  sentences of the window in their order, one per line; a target index that is not a
  valid index fails with an \<open>IndexError\<close>.
\<close>

definition build :: "string list \<Rightarrow> int \<Rightarrow> int \<Rightarrow> int \<Rightarrow> error + string" where
  "build sentences targetIndex sentencesBefore sentencesAfter =
     (let n = int (length sentences)
      in if targetIndex < 0 \<or> n \<le> targetIndex
         then Inl (IndexError ''list index out of range'')
         else Inr (join [CHR 0x0A]
                    (map (\<lambda>j. sentences ! nat j)
                       (window_indices n targetIndex sentencesBefore sentencesAfter))))"

subsection \<open>The three stages\<close>

text \<open>
  Modelled from the spec: the StageVerdict of section 3, the outcome of a stage of the
  missing \<open>pipeline.py\<close>.
\<close>

datatype 'a verdict = Proceed 'a | Reject string | Unparseable string

text \<open>
  Modelled from the spec: what the missing \<open>pipeline.py\<close> and \<open>llm_client.py\<close> get
  from outside (sections 4.3 to 4.5 and 6). \<open>request\<close> is the one operation of the
  model-calling collaborator, from a system prompt and a user prompt to the response
  text, or a failure; the three prompts are opaque strings; how the user content is put
  together and how a response is read is not fixed by the specification, so these are
  parameters as well, and so are the sizes of the context window and the detector of
  sentence boundaries.
\<close>

record pipeline_config =
  request :: "string \<Rightarrow> string \<Rightarrow> error + string"
  selection_prompt :: string
  disambiguation_prompt :: string
  decomposition_prompt :: string
  user_content :: "string \<Rightarrow> string \<Rightarrow> string \<Rightarrow> string"
  decomposition_content :: "string \<Rightarrow> string \<Rightarrow> string"
  parse_selection :: "string \<Rightarrow> unit verdict"
  parse_disambiguation :: "string \<Rightarrow> string verdict"
  parse_decomposition :: "string \<Rightarrow> string list verdict"
  sentence_detector :: "string \<Rightarrow> string list"
  sentences_before :: int
  sentences_after :: int

text \<open>
  Modelled from the spec: a stage of the missing \<open>pipeline.py\<close> sends exactly one
  request per invocation (section 4.3), which the log records with the stage and the
  index of the sentence.
\<close>

definition stage_request ::
  "pipeline_config \<Rightarrow> stage \<Rightarrow> nat \<Rightarrow> string \<Rightarrow> string \<Rightarrow> call list \<Rightarrow> (error + string) \<times> call list" where
  "stage_request cfg s i system_prompt user_prompt log =
     (request cfg system_prompt user_prompt, log @ [(s, i)])"

text \<open>
  Modelled from the spec: the SelectionStage of section 4.3 (missing \<open>pipeline.py\<close>):
  one request with the selection prompt and the context, the target sentence and the
  question; the response is read into a verdict.
\<close>

definition selection_stage ::
  "pipeline_config \<Rightarrow> nat \<Rightarrow> string \<Rightarrow> string \<Rightarrow> string \<Rightarrow> call list
   \<Rightarrow> (error + unit verdict) \<times> call list" where
  "selection_stage cfg i context sentence question log =
     (case stage_request cfg Selection i (selection_prompt cfg)
             (user_content cfg context sentence question) log of
        (Inl e, log') \<Rightarrow> (Inl e, log')
      | (Inr response, log') \<Rightarrow> (Inr (parse_selection cfg response), log'))"

text \<open>
  Modelled from the spec: the DisambiguationStage of section 4.4 (missing
  \<open>pipeline.py\<close>), with the context, the target sentence and the guiding question.
\<close>

definition disambiguation_stage ::
  "pipeline_config \<Rightarrow> nat \<Rightarrow> string \<Rightarrow> string \<Rightarrow> string \<Rightarrow> call list
   \<Rightarrow> (error + string verdict) \<times> call list" where
  "disambiguation_stage cfg i context sentence question log =
     (case stage_request cfg Disambiguation i (disambiguation_prompt cfg)
             (user_content cfg context sentence question) log of
        (Inl e, log') \<Rightarrow> (Inl e, log')
      | (Inr response, log') \<Rightarrow> (Inr (parse_disambiguation cfg response), log'))"

text \<open>
  Modelled from the spec: the DecompositionStage of section 4.5 (missing
  \<open>pipeline.py\<close>), with the context and the disambiguated sentence.
\<close>

definition decomposition_stage ::
  "pipeline_config \<Rightarrow> nat \<Rightarrow> string \<Rightarrow> string \<Rightarrow> call list
   \<Rightarrow> (error + string list verdict) \<times> call list" where
  "decomposition_stage cfg i context rewritten log =
     (case stage_request cfg Decomposition i (decomposition_prompt cfg)
             (decomposition_content cfg context rewritten) log of
        (Inl e, log') \<Rightarrow> (Inl e, log')
      | (Inr response, log') \<Rightarrow> (Inr (parse_decomposition cfg response), log'))"

subsection \<open>Orchestration\<close>

text \<open>
  Modelled from the spec: the chain of one sentence in \<open>ClaimifyPipeline\<close> (section
  4.6, missing \<open>pipeline.py\<close>). Selection runs first; disambiguation runs only after
  selection said \<open>Proceed\<close>, decomposition only after disambiguation said \<open>Proceed\<close>.
  Any other verdict, and any exception raised by a stage, is absorbed at the boundary
  of the sentence, which then gives no claims. A failure of the context builder is a
  violation of the programming contract and is not absorbed (section 7).
\<close>

definition process_sentence ::
  "pipeline_config \<Rightarrow> string \<Rightarrow> string list \<Rightarrow> nat \<Rightarrow> call list
   \<Rightarrow> (error + string list) \<times> call list" where
  "process_sentence cfg question sentences i log =
     (case build sentences (int i) (sentences_before cfg) (sentences_after cfg) of
        Inl e \<Rightarrow> (Inl e, log)
      | Inr context \<Rightarrow>
          (case selection_stage cfg i context (sentences ! i) question log of
             (Inr (Proceed u), log1) \<Rightarrow>
               (case disambiguation_stage cfg i context (sentences ! i) question log1 of
                  (Inr (Proceed rewritten), log2) \<Rightarrow>
                    (case decomposition_stage cfg i context rewritten log2 of
                       (Inr (Proceed claims), log3) \<Rightarrow> (Inr claims, log3)
                     | (other, log3) \<Rightarrow> (Inr [], log3))
                | (other, log2) \<Rightarrow> (Inr [], log2))
           | (other, log1) \<Rightarrow> (Inr [], log1)))"

text \<open>
  Modelled from the spec: the loop of \<open>ClaimifyPipeline.run\<close> over the sentences in
  document order (section 4.6, missing \<open>pipeline.py\<close>), which appends the claims of
  each sentence to the claims found so far.
\<close>

fun process_sentences ::
  "pipeline_config \<Rightarrow> string \<Rightarrow> string list \<Rightarrow> nat list \<Rightarrow> string list \<Rightarrow> call list
   \<Rightarrow> (error + string list) \<times> call list" where
  "process_sentences cfg question sentences [] all_claims log = (Inr all_claims, log)"
| "process_sentences cfg question sentences (i # rest) all_claims log =
     (case process_sentence cfg question sentences i log of
        (Inl e, log') \<Rightarrow> (Inl e, log')
      | (Inr claims, log') \<Rightarrow>
          process_sentences cfg question sentences rest (all_claims @ claims) log')"

text \<open>
  Modelled from the spec: \<open>run(text, question)\<close> of section 6 (missing
  \<open>pipeline.py\<close>): segment, then process every sentence.
\<close>

definition run ::
  "pipeline_config \<Rightarrow> string \<Rightarrow> string \<Rightarrow> call list \<Rightarrow> (error + string list) \<times> call list" where
  "run cfg text question log =
     (let sentences = segment (sentence_detector cfg) text
      in process_sentences cfg question sentences [0..<length sentences] [] log)"

text \<open>
  Modelled from the spec: the method \<open>pipeline.run(text)\<close> that the server calls on
  the object it has just constructed (missing \<open>pipeline.py\<close>): it reads the question
  from its own object and nothing else from the heap (a PipelineRun is created per
  invocation and holds no state of another one, section 3).
\<close>

definition ClaimifyPipeline_run_spec ::
  "pipeline_config \<Rightarrow> obj list \<Rightarrow> nat \<Rightarrow> string \<Rightarrow> call list
   \<Rightarrow> (error + string list) \<times> call list" where
  "ClaimifyPipeline_run_spec cfg h pipeline text log =
     (if pipeline < length h then
        (case h ! pipeline of
           ClaimifyPipeline_obj llm_client question \<Rightarrow> run cfg text question log
         | LLMClient_obj \<Rightarrow> (Inl (Exception ''not a pipeline''), log))
      else (Inl (Exception ''not a pipeline''), log))"

text \<open>
  A constructor of the pipeline that raises for no question.
\<close>

definition no_error :: "string \<Rightarrow> error option" where
  "no_error question = None"

text \<open>
  Modelled from the spec: the server's collaborators with the pipeline above in the
  place of the missing \<open>pipeline.py\<close>; whether the two constructors raise stays
  open.
\<close>

definition spec_collaborators ::
  "pipeline_config \<Rightarrow> error option \<Rightarrow> (string \<Rightarrow> error option) \<Rightarrow> collaborators" where
  "spec_collaborators cfg client_init pipeline_init =
     \<lparr>LLMClient_init = client_init,
      ClaimifyPipeline_init = pipeline_init,
      ClaimifyPipeline_run = ClaimifyPipeline_run_spec cfg\<rparr>"

subsection \<open>What one sentence does, for stating the properties of a run\<close>

text \<open>
  Modelled from the spec: the context that the stages of sentence \<open>i\<close> see in the
  chain of section 4.6 (missing \<open>pipeline.py\<close>).
\<close>

definition context_of :: "pipeline_config \<Rightarrow> string list \<Rightarrow> nat \<Rightarrow> string" where
  "context_of cfg sentences i =
     (case build sentences (int i) (sentences_before cfg) (sentences_after cfg) of
        Inl e \<Rightarrow> []
      | Inr context \<Rightarrow> context)"

text \<open>
  Modelled from the spec: what the selection stage of the missing \<open>pipeline.py\<close>
  returns for sentence \<open>i\<close> (section 4.3).
\<close>

definition selection_result ::
  "pipeline_config \<Rightarrow> string \<Rightarrow> string list \<Rightarrow> nat \<Rightarrow> error + unit verdict" where
  "selection_result cfg question sentences i =
     fst (selection_stage cfg i (context_of cfg sentences i) (sentences ! i) question [])"

text \<open>
  Modelled from the spec: what the disambiguation stage of the missing
  \<open>pipeline.py\<close> returns for sentence \<open>i\<close> when it runs (section 4.4).
\<close>

definition disambiguation_result ::
  "pipeline_config \<Rightarrow> string \<Rightarrow> string list \<Rightarrow> nat \<Rightarrow> error + string verdict" where
  "disambiguation_result cfg question sentences i =
     fst (disambiguation_stage cfg i (context_of cfg sentences i) (sentences ! i) question [])"

text \<open>
  Modelled from the spec: what the decomposition stage of the missing
  \<open>pipeline.py\<close> returns for sentence \<open>i\<close> when it runs on a rewritten sentence
  (section 4.5).
\<close>

definition decomposition_result ::
  "pipeline_config \<Rightarrow> string list \<Rightarrow> nat \<Rightarrow> string \<Rightarrow> error + string list verdict" where
  "decomposition_result cfg sentences i rewritten =
     fst (decomposition_stage cfg i (context_of cfg sentences i) rewritten [])"

text \<open>
  Modelled from the spec: a stage of the missing \<open>pipeline.py\<close> fails when its
  request raises or when the response is unparseable (sections 4.6 and 7).
\<close>

definition stage_failed :: "error + 'a verdict \<Rightarrow> bool" where
  "stage_failed r =
     (case r of Inl e \<Rightarrow> True | Inr (Unparseable raw) \<Rightarrow> True | Inr other \<Rightarrow> False)"

text \<open>
  Modelled from the spec: a sentence fails in the missing \<open>pipeline.py\<close> when a
  stage that runs for it fails (section 4.6).
\<close>

definition sentence_fails ::
  "pipeline_config \<Rightarrow> string \<Rightarrow> string list \<Rightarrow> nat \<Rightarrow> bool" where
  "sentence_fails cfg question sentences k =
     (case selection_result cfg question sentences k of
        Inr (Proceed u) \<Rightarrow>
          (case disambiguation_result cfg question sentences k of
             Inr (Proceed rewritten) \<Rightarrow>
               stage_failed (decomposition_result cfg sentences k rewritten)
           | other \<Rightarrow> stage_failed other)
      | other \<Rightarrow> stage_failed other)"

text \<open>
  Modelled from the spec: a sentence is processed normally by the missing
  \<open>pipeline.py\<close> when all three stages say \<open>Proceed\<close>; its claims are then the
  payload of the decomposition (section 4.6).
\<close>

definition normal_claims ::
  "pipeline_config \<Rightarrow> string \<Rightarrow> string list \<Rightarrow> nat \<Rightarrow> string list option" where
  "normal_claims cfg question sentences i =
     (case selection_result cfg question sentences i of
        Inr (Proceed u) \<Rightarrow>
          (case disambiguation_result cfg question sentences i of
             Inr (Proceed rewritten) \<Rightarrow>
               (case decomposition_result cfg sentences i rewritten of
                  Inr (Proceed claims) \<Rightarrow> Some claims
                | other \<Rightarrow> None)
           | other \<Rightarrow> None)
      | other \<Rightarrow> None)"

text \<open>
  Modelled from the spec: the claims that sentence \<open>i\<close> contributes when the chain of
  the missing \<open>pipeline.py\<close> processes it on its own.
\<close>

definition sentence_claims ::
  "pipeline_config \<Rightarrow> string \<Rightarrow> string list \<Rightarrow> nat \<Rightarrow> string list" where
  "sentence_claims cfg question sentences i =
     (case fst (process_sentence cfg question sentences i []) of
        Inl e \<Rightarrow> []
      | Inr claims \<Rightarrow> claims)"

text \<open>
  Modelled from the spec: the requests that the chain of the missing \<open>pipeline.py\<close>
  sends for sentence \<open>i\<close> when it processes it on its own.
\<close>

definition sentence_calls ::
  "pipeline_config \<Rightarrow> string \<Rightarrow> string list \<Rightarrow> nat \<Rightarrow> call list" where
  "sentence_calls cfg question sentences i =
     snd (process_sentence cfg question sentences i [])"

section \<open>A deterministic stand-in for the collaborators\<close>

text \<open>
  The concrete instances below run the pipeline against a stand-in for the external
  parts, as section 9 of the specification foresees for tests. Its detector ends a
  sentence at a full stop that is followed by a space or by the end of the line. Its
  model fails on the sentence \<open>Boom.\<close>, answers the selection prompt with \<open>no\<close> for
  \<open>I think this is nice.\<close>, with something unreadable for \<open>Hmm.\<close> and with \<open>yes\<close>
  otherwise, and answers the two other prompts with the sentence itself.
\<close>

fun stand_in_detect_from :: "string \<Rightarrow> string \<Rightarrow> string list" where
  "stand_in_detect_from cur [] = (if cur = [] then [] else [rev cur])"
| "stand_in_detect_from cur (c # cs) =
     (if cur = [] \<and> c = CHR '' '' then stand_in_detect_from [] cs
      else if c = CHR ''.'' \<and> (case cs of [] \<Rightarrow> True | d # ds \<Rightarrow> d = CHR '' '')
      then rev (c # cur) # stand_in_detect_from [] cs
      else stand_in_detect_from (c # cur) cs)"

definition stand_in_detect :: "string \<Rightarrow> string list" where
  "stand_in_detect line = stand_in_detect_from [] line"

definition stand_in_request :: "string \<Rightarrow> string \<Rightarrow> error + string" where
  "stand_in_request system_prompt user_prompt =
     (if user_prompt = ''Boom.'' then Inl (Exception ''connection reset'')
      else if system_prompt = ''selection'' then
        (if user_prompt = ''I think this is nice.'' then Inr ''no''
         else if user_prompt = ''Hmm.'' then Inr ''maybe''
         else Inr ''yes'')
      else Inr user_prompt)"

definition stand_in_parse_selection :: "string \<Rightarrow> unit verdict" where
  "stand_in_parse_selection response =
     (if response = ''yes'' then Proceed ()
      else if response = ''no'' then Reject ''no verifiable claim''
      else Unparseable response)"

definition stand_in :: pipeline_config where
  "stand_in =
     \<lparr>request = stand_in_request,
      selection_prompt = ''selection'',
      disambiguation_prompt = ''disambiguation'',
      decomposition_prompt = ''decomposition'',
      user_content = (\<lambda>context sentence question. sentence),
      decomposition_content = (\<lambda>context sentence. sentence),
      parse_selection = stand_in_parse_selection,
      parse_disambiguation = (\<lambda>response. Proceed response),
      parse_decomposition = (\<lambda>response. Proceed [response]),
      sentence_detector = stand_in_detect,
      sentences_before = 1,
      sentences_after = 1\<rparr>"

definition empty_state :: pystate where
  "empty_state = \<lparr>heap = [], calls = []\<rparr>"

text \<open>
  The stand-in with constructors that do not raise, and with a client whose
  construction raises (as it may: the test script wraps \<open>LLMClient()\<close> in a
  \<open>try\<close>).
\<close>

definition stand_in_collaborators :: collaborators where
  "stand_in_collaborators = spec_collaborators stand_in None no_error"

definition failing_client_collaborators :: collaborators where
  "failing_client_collaborators =
     spec_collaborators stand_in (Some (ValueError ''Unsupported LLM provider: gemini'')) no_error"

text \<open>
  Four texts for the stand-in: one whose second sentence makes the model fail, one
  whose second sentence is rejected by the selection, the text of the test script, and
  one of whitespace only.
\<close>

definition failing_text :: string where
  "failing_text = ''Paris is in France. Boom. Rome is in Italy.''"

definition rejected_text :: string where
  "rejected_text = ''Paris is in France. I think this is nice. Rome is in Italy.''"





chapter \<open>Properties\<close>

section \<open>Startup\<close>

text \<open>
  Claim C4. When the provider read at startup is \<open>openai\<close> or \<open>anthropic\<close> (after
  lower-casing, \<open>openai\<close> when the variable is unset) and the API key of that provider
  is unset or empty, \<open>main\<close> ends in \<open>sys.exit(1)\<close>, a nonzero status, and never
  reaches \<open>server.run\<close>: the failure comes before any tool call can be accepted.
\<close>

theorem main_exits_when_credential_absent:
  assumes "(lower (dict_get env ''LLM_PROVIDER'' ''openai'') = ''openai''
              \<and> not_getenv env ''OPENAI_API_KEY'')
           \<or> (lower (dict_get env ''LLM_PROVIDER'' ''openai'') = ''anthropic''
              \<and> not_getenv env ''ANTHROPIC_API_KEY'')"
  shows "last (main env) = Sys_exit 1 \<and> (1::int) \<noteq> 0 \<and> Server_run \<notin> set (main env)"
  using assms by (auto simp add: main_def Let_def)

theorem main_exits_when_credential_absent_witness:
  "((lower (dict_get [''LLM_PROVIDER'' \<mapsto> ''Anthropic''] ''LLM_PROVIDER'' ''openai'') = ''openai''
      \<and> not_getenv [''LLM_PROVIDER'' \<mapsto> ''Anthropic''] ''OPENAI_API_KEY'')
    \<or> (lower (dict_get [''LLM_PROVIDER'' \<mapsto> ''Anthropic''] ''LLM_PROVIDER'' ''openai'') = ''anthropic''
      \<and> not_getenv [''LLM_PROVIDER'' \<mapsto> ''Anthropic''] ''ANTHROPIC_API_KEY''))
   \<and> (last (main [''LLM_PROVIDER'' \<mapsto> ''Anthropic'']) = Sys_exit 1 \<and> (1::int) \<noteq> 0
      \<and> Server_run \<notin> set (main [''LLM_PROVIDER'' \<mapsto> ''Anthropic'']))"
proof -
  have h: "(lower (dict_get [''LLM_PROVIDER'' \<mapsto> ''Anthropic''] ''LLM_PROVIDER'' ''openai'') = ''openai''
      \<and> not_getenv [''LLM_PROVIDER'' \<mapsto> ''Anthropic''] ''OPENAI_API_KEY'')
    \<or> (lower (dict_get [''LLM_PROVIDER'' \<mapsto> ''Anthropic''] ''LLM_PROVIDER'' ''openai'') = ''anthropic''
      \<and> not_getenv [''LLM_PROVIDER'' \<mapsto> ''Anthropic''] ''ANTHROPIC_API_KEY'')"
    by code_simp
  show ?thesis
    using h main_exits_when_credential_absent [OF h] by (rule conjI)
qed

lemma dict_get_other_key:
  "key \<noteq> k1 \<Longrightarrow> key \<noteq> k2 \<Longrightarrow> dict_get (env(k1 := v1, k2 := v2)) key d = dict_get env key d"
  by (simp add: dict_get_def)

text \<open>
  Claim C10. When the provider read at startup lower-cases to neither \<open>openai\<close> nor
  \<open>anthropic\<close>, \<open>main\<close> prints its four start lines and enters \<open>server.run\<close>; it
  does so whatever the two API-key variables hold, set or unset, so no credential is
  checked and the unknown provider name is not rejected.
\<close>

theorem main_unrecognized_provider_starts:
  assumes "lower (dict_get env ''LLM_PROVIDER'' ''openai'') \<noteq> ''openai''"
    and "lower (dict_get env ''LLM_PROVIDER'' ''openai'') \<noteq> ''anthropic''"
  shows "main env =
           [Print_stderr ''Starting Claimify MCP Server...'',
            Print_stderr (''LLM Provider: '' @ lower (dict_get env ''LLM_PROVIDER'' ''openai'')),
            Print_stderr (''Model: '' @ dict_get env ''LLM_MODEL'' ''gpt-4o''),
            Print_stderr ''Server is ready to accept connections via stdio.'',
            Server_run]
         \<and> main (env(''OPENAI_API_KEY'' := openai_key, ''ANTHROPIC_API_KEY'' := anthropic_key))
           = main env"
proof -
  let ?env' = "env(''OPENAI_API_KEY'' := openai_key, ''ANTHROPIC_API_KEY'' := anthropic_key)"
  have p: "dict_get ?env' ''LLM_PROVIDER'' ''openai'' = dict_get env ''LLM_PROVIDER'' ''openai''"
    by (rule dict_get_other_key) simp_all
  have m: "dict_get ?env' ''LLM_MODEL'' ''gpt-4o'' = dict_get env ''LLM_MODEL'' ''gpt-4o''"
    by (rule dict_get_other_key) simp_all
  have a: "main env =
           [Print_stderr ''Starting Claimify MCP Server...'',
            Print_stderr (''LLM Provider: '' @ lower (dict_get env ''LLM_PROVIDER'' ''openai'')),
            Print_stderr (''Model: '' @ dict_get env ''LLM_MODEL'' ''gpt-4o''),
            Print_stderr ''Server is ready to accept connections via stdio.'',
            Server_run]"
    using assms by (simp add: main_def Let_def)
  have b: "main ?env' = main env"
    using assms unfolding main_def Let_def p m by simp
  from a b show ?thesis by (rule conjI)
qed

theorem main_unrecognized_provider_starts_witness:
  "lower (dict_get [''LLM_PROVIDER'' \<mapsto> ''Gemini''] ''LLM_PROVIDER'' ''openai'') \<noteq> ''openai''
   \<and> lower (dict_get [''LLM_PROVIDER'' \<mapsto> ''Gemini''] ''LLM_PROVIDER'' ''openai'') \<noteq> ''anthropic''
   \<and> main [''LLM_PROVIDER'' \<mapsto> ''Gemini''] =
           [Print_stderr ''Starting Claimify MCP Server...'',
            Print_stderr ''LLM Provider: gemini'',
            Print_stderr ''Model: gpt-4o'',
            Print_stderr ''Server is ready to accept connections via stdio.'',
            Server_run]
   \<and> main ([''LLM_PROVIDER'' \<mapsto> ''Gemini''](''OPENAI_API_KEY'' := None, ''ANTHROPIC_API_KEY'' := None))
           = main [''LLM_PROVIDER'' \<mapsto> ''Gemini'']"
proof -
  have h1: "lower (dict_get [''LLM_PROVIDER'' \<mapsto> ''Gemini''] ''LLM_PROVIDER'' ''openai'') \<noteq> ''openai''"
    by code_simp
  have h2: "lower (dict_get [''LLM_PROVIDER'' \<mapsto> ''Gemini''] ''LLM_PROVIDER'' ''openai'') \<noteq> ''anthropic''"
    by code_simp
  have l: "lower (dict_get [''LLM_PROVIDER'' \<mapsto> ''Gemini''] ''LLM_PROVIDER'' ''openai'') = ''gemini''"
    by code_simp
  have g: "dict_get [''LLM_PROVIDER'' \<mapsto> ''Gemini''] ''LLM_MODEL'' ''gpt-4o'' = ''gpt-4o''"
    by code_simp
  show ?thesis
    using h1 h2 main_unrecognized_provider_starts [OF h1 h2, of None None] by (simp add: l g)
qed

section \<open>Serialisation of the claims\<close>

lemma of_char_less_256: "(of_char c :: nat) < 256"
proof -
  have "(of_char c :: nat) = of_char (char_of (of_char c :: nat))" by simp
  also have "\<dots> = (of_char c :: nat) mod 256" by (simp only: of_char_of)
  finally have "(of_char c :: nat) = (of_char c :: nat) mod 256" .
  moreover have "(of_char c :: nat) mod 256 < 256" by simp
  ultimately show ?thesis by simp
qed

lemma hex_value_hex_digit: "n < 16 \<Longrightarrow> hex_value (hex_digit n) = Some n"
proof -
  assume "n < 16"
  then consider "n = 0" | "n = 1" | "n = 2" | "n = 3" | "n = 4" | "n = 5" | "n = 6" | "n = 7"
    | "n = 8" | "n = 9" | "n = 10" | "n = 11" | "n = 12" | "n = 13" | "n = 14" | "n = 15"
    by atomize_elim arith
  then show ?thesis
    by cases (simp_all add: hex_value_def hex_digit_def)
qed

lemma scan_unicode_escape:
  assumes "n < 256"
  shows "scan In_string done cur
           ([CHR 0x5C, CHR ''u'', CHR ''0'', CHR ''0'', hex_digit (n div 16), hex_digit (n mod 16)] @ rest)
         = scan In_string done (char_of n # cur) rest"
proof -
  have d: "n div 16 < 16" using assms by simp
  have m: "n mod 16 < 16" by simp
  have z: "hex_value (CHR ''0'') = Some 0" by (simp add: hex_value_def)
  show ?thesis
    using assms by (simp add: hex_value_hex_digit [OF d] hex_value_hex_digit [OF m] z)
qed

lemma scan_escape_char:
  "scan In_string done cur (json_escape_char c @ rest) = scan In_string done (c # cur) rest"
proof -
  let ?n = "of_char c :: nat"
  have u: "scan In_string done cur
           ([CHR 0x5C, CHR ''u'', CHR ''0'', CHR ''0'', hex_digit (?n div 16), hex_digit (?n mod 16)] @ rest)
         = scan In_string done (c # cur) rest"
    using scan_unicode_escape [of ?n "done" cur rest] of_char_less_256 [of c] by simp
  consider "c = CHR 0x5C" | "c = CHR 0x22" | "c = CHR 0x08" | "c = CHR 0x0C" | "c = CHR 0x0A"
    | "c = CHR 0x0D" | "c = CHR 0x09"
    | "c \<noteq> CHR 0x5C" "c \<noteq> CHR 0x22" "c \<noteq> CHR 0x08" "c \<noteq> CHR 0x0C" "c \<noteq> CHR 0x0A"
      "c \<noteq> CHR 0x0D" "c \<noteq> CHR 0x09"
    by blast
  then show ?thesis
  proof cases
    case 8
    show ?thesis
    proof (cases "32 \<le> ?n \<and> ?n \<le> 126")
      case True
      with 8 show ?thesis by (simp add: json_escape_char_def Let_def)
    next
      case False
      with 8 have "json_escape_char c =
        [CHR 0x5C, CHR ''u'', CHR ''0'', CHR ''0'', hex_digit (?n div 16), hex_digit (?n mod 16)]"
        by (simp add: json_escape_char_def Let_def)
      then show ?thesis using u by simp
    qed
  qed (simp_all add: json_escape_char_def unescape_def)
qed

lemma scan_string_body:
  "scan In_string done cur (concat (map json_escape_char s) @ rest)
   = scan In_string done (rev s @ cur) rest"
proof (induction s arbitrary: cur)
  case Nil
  show ?case by simp
next
  case (Cons c s)
  have "scan In_string done cur (concat (map json_escape_char (c # s)) @ rest)
        = scan In_string done cur (json_escape_char c @ (concat (map json_escape_char s) @ rest))"
    by simp
  also have "\<dots> = scan In_string done (c # cur) (concat (map json_escape_char s) @ rest)"
    by (rule scan_escape_char)
  also have "\<dots> = scan In_string done (rev s @ c # cur) rest"
    by (rule Cons.IH)
  finally show ?case by simp
qed

lemma scan_encoded_string:
  "scan In_string done [] (concat (map json_escape_char s) @ CHR 0x22 # rest)
   = scan After_string (s # done) [] rest"
  using scan_string_body [of "done" "[]" s "CHR 0x22 # rest"] by simp

lemma join_Cons: "join sep (x # xs) = x @ concat (map (\<lambda>y. sep @ y) xs)"
  by (induction sep xs arbitrary: x rule: join.induct) simp_all

lemma scan_items:
  "scan After_string done []
     (concat (map (\<lambda>y. ('','' @ [CHR 0x0A] @ ''  '') @ y) (map json_encode_string xs)) @ [CHR 0x0A] @ '']'')
   = Some (rev done @ xs)"
proof (induction xs arbitrary: "done")
  case Nil
  show ?case by (simp add: is_json_ws_def)
next
  case (Cons x xs)
  show ?case
    using Cons.IH [of "x # done"]
    by (simp add: is_json_ws_def json_encode_string_def scan_encoded_string)
qed

lemma json_loads_dumps: "json_loads_claims (json_dumps claims) = Some claims"
proof (cases claims)
  case Nil
  then show ?thesis by (simp add: json_loads_claims_def json_dumps_def is_json_ws_def)
next
  case (Cons x xs)
  show ?thesis
    using scan_items [of "[x]" xs]
    by (simp add: Cons json_loads_claims_def json_dumps_def join_Cons is_json_ws_def
        json_encode_string_def scan_encoded_string)
qed

lemma json_loads_error_message:
  "json_loads_claims (''Error during claim extraction: '' @ m) = None"
  by (simp add: json_loads_claims_def is_json_ws_def)

section \<open>The tool layer\<close>

lemma new_LLMClient_cases:
  "new_LLMClient C st =
     (case LLMClient_init C of
        Some e \<Rightarrow> (Inl e, st)
      | None \<Rightarrow> (Inr (length (heap st)), st\<lparr>heap := heap st @ [LLMClient_obj]\<rparr>))"
  by (simp add: new_LLMClient_def new_object_def split: option.splits)

lemma new_ClaimifyPipeline_cases:
  "new_ClaimifyPipeline C c q st =
     (case ClaimifyPipeline_init C q of
        Some e \<Rightarrow> (Inl e, st)
      | None \<Rightarrow> (Inr (length (heap st)), st\<lparr>heap := heap st @ [ClaimifyPipeline_obj c q]\<rparr>))"
  by (simp add: new_ClaimifyPipeline_def new_object_def split: option.splits)

lemma heap_pipeline_run: "heap (snd (pipeline_run C p t st)) = heap st"
  by (simp add: pipeline_run_def split: prod.splits)

lemma heap_extract_claims_body:
  "heap (snd (extract_claims_body C arguments st)) =
     heap st @
       (case LLMClient_init C of
          Some e \<Rightarrow> []
        | None \<Rightarrow>
            LLMClient_obj #
              (case ClaimifyPipeline_init C
                      (dict_get arguments ''question'' ''The user did not provide a question.'') of
                 Some e \<Rightarrow> []
               | None \<Rightarrow>
                   [ClaimifyPipeline_obj (length (heap st))
                      (dict_get arguments ''question'' ''The user did not provide a question.'')]))"
  by (simp add: extract_claims_body_def Let_def new_LLMClient_cases new_ClaimifyPipeline_cases
      heap_pipeline_run split: option.splits)

lemma heap_call_tool:
  "heap (snd (call_tool C st ''extract_claims'' arguments))
   = heap (snd (extract_claims_body C arguments st))"
  by (simp add: call_tool_def split: prod.splits sum.splits)

lemma heap_call_tool_other:
  "name \<noteq> ''extract_claims'' \<Longrightarrow> heap (snd (call_tool C st name arguments)) = heap st"
  by (simp add: call_tool_def)

lemma body_default_question:
  assumes "arguments ''question'' = None"
  shows "extract_claims_body C arguments st =
         extract_claims_body C (arguments(''question'' \<mapsto> ''The user did not provide a question.'')) st"
  using assms by (simp add: extract_claims_body_def dict_get_def)

text \<open>
  Claim C3. When the arguments of a call have no \<open>question\<close>, the handler behaves
  exactly as if the placeholder \<open>The user did not provide a question.\<close> had been
  passed: every pipeline object that the call constructs holds this non-empty string as
  its question, and when neither constructor raises, the call constructs exactly one
  client and one pipeline with the placeholder. The placeholder is also the default
  that \<open>list_tools\<close> declares for the property.
\<close>

theorem call_tool_default_question:
  assumes "arguments ''question'' = None"
  shows "call_tool C st name arguments =
           call_tool C st name
             (arguments(''question'' \<mapsto> ''The user did not provide a question.''))
         \<and> (\<forall>ob \<in> set (drop (length (heap st)) (heap (snd (call_tool C st name arguments)))).
              \<forall>c q. ob = ClaimifyPipeline_obj c q
                \<longrightarrow> q = ''The user did not provide a question.'' \<and> q \<noteq> [])
         \<and> (LLMClient_init C = None
              \<and> ClaimifyPipeline_init C ''The user did not provide a question.'' = None
            \<longrightarrow> heap (snd (call_tool C st ''extract_claims'' arguments)) =
                  heap st @ [LLMClient_obj,
                    ClaimifyPipeline_obj (length (heap st)) ''The user did not provide a question.''])
         \<and> map prop_default (filter (\<lambda>p. prop_name p = ''question'') (properties (hd list_tools)))
             = [Some ''The user did not provide a question.'']"
proof -
  have q: "dict_get arguments ''question'' ''The user did not provide a question.''
           = ''The user did not provide a question.''"
    using assms by (simp add: dict_get_def)
  have a: "call_tool C st name arguments =
           call_tool C st name
             (arguments(''question'' \<mapsto> ''The user did not provide a question.''))"
    using body_default_question [of arguments C st] assms by (simp add: call_tool_def)
  have h: "heap (snd (call_tool C st ''extract_claims'' arguments)) =
     heap st @
       (case LLMClient_init C of
          Some e \<Rightarrow> []
        | None \<Rightarrow>
            LLMClient_obj #
              (case ClaimifyPipeline_init C ''The user did not provide a question.'' of
                 Some e \<Rightarrow> []
               | None \<Rightarrow>
                   [ClaimifyPipeline_obj (length (heap st))
                      ''The user did not provide a question.'']))"
    by (simp only: heap_call_tool heap_extract_claims_body q)
  have b: "\<forall>ob \<in> set (drop (length (heap st)) (heap (snd (call_tool C st name arguments)))).
              \<forall>c q. ob = ClaimifyPipeline_obj c q
                \<longrightarrow> q = ''The user did not provide a question.'' \<and> q \<noteq> []"
  proof (cases "name = ''extract_claims''")
    case True
    show ?thesis unfolding True h by (auto split: option.splits)
  next
    case False
    then show ?thesis by (simp add: heap_call_tool_other)
  qed
  have c: "LLMClient_init C = None
              \<and> ClaimifyPipeline_init C ''The user did not provide a question.'' = None
            \<longrightarrow> heap (snd (call_tool C st ''extract_claims'' arguments)) =
                  heap st @ [LLMClient_obj,
                    ClaimifyPipeline_obj (length (heap st)) ''The user did not provide a question.'']"
    unfolding h by simp
  have d: "map prop_default (filter (\<lambda>p. prop_name p = ''question'') (properties (hd list_tools)))
             = [Some ''The user did not provide a question.'']"
    by (simp add: list_tools_def)
  from a b c d show ?thesis by blast
qed

theorem call_tool_default_question_witness:
  "[''text_to_process'' \<mapsto> ''Paris is in France.''] ''question'' = None
   \<and> (LLMClient_init stand_in_collaborators = None
      \<and> ClaimifyPipeline_init stand_in_collaborators ''The user did not provide a question.'' = None)
   \<and> heap (snd (call_tool stand_in_collaborators empty_state ''extract_claims''
               [''text_to_process'' \<mapsto> ''Paris is in France.'']))
       = heap empty_state @
           [LLMClient_obj,
            ClaimifyPipeline_obj (length (heap empty_state)) ''The user did not provide a question.'']
   \<and> call_tool stand_in_collaborators empty_state ''extract_claims''
         [''text_to_process'' \<mapsto> ''Paris is in France.'']
       = call_tool stand_in_collaborators empty_state ''extract_claims''
           [''text_to_process'' \<mapsto> ''Paris is in France.'',
            ''question'' \<mapsto> ''The user did not provide a question.'']"
proof -
  have h: "[''text_to_process'' \<mapsto> ''Paris is in France.''] ''question'' = None"
    by simp
  have c: "LLMClient_init stand_in_collaborators = None
      \<and> ClaimifyPipeline_init stand_in_collaborators ''The user did not provide a question.'' = None"
    by (simp add: stand_in_collaborators_def spec_collaborators_def no_error_def)
  note t = call_tool_default_question
    [where arguments = "[''text_to_process'' \<mapsto> ''Paris is in France.'']"
       and C = stand_in_collaborators and st = empty_state and name = "''extract_claims''", OF h]
  have a: "call_tool stand_in_collaborators empty_state ''extract_claims''
         [''text_to_process'' \<mapsto> ''Paris is in France.'']
       = call_tool stand_in_collaborators empty_state ''extract_claims''
           [''text_to_process'' \<mapsto> ''Paris is in France.'',
            ''question'' \<mapsto> ''The user did not provide a question.'']"
    by (rule t [THEN conjunct1])
  have b: "heap (snd (call_tool stand_in_collaborators empty_state ''extract_claims''
               [''text_to_process'' \<mapsto> ''Paris is in France.'']))
       = heap empty_state @
           [LLMClient_obj,
            ClaimifyPipeline_obj (length (heap empty_state)) ''The user did not provide a question.'']"
    by (rule mp [OF t [THEN conjunct2, THEN conjunct2, THEN conjunct1] c])
  show ?thesis by (rule conjI [OF h conjI [OF c conjI [OF b a]]])
qed

text \<open>
  Claim C1, as amended. Every call of \<open>extract_claims\<close> answers with exactly one
  text item. When the construction of the client, the construction of the pipeline and
  the run all return, the text is \<open>json.dumps(claims, indent=2)\<close> of the claims
  that the run returned, which reads back as exactly that list of strings, in order.
  When one of them raises an \<open>Exception\<close>, the text is
  \<open>Error during claim extraction: \<close> followed by the message, which is not a
  claim list; an exception outside the class \<open>Exception\<close> leaves the handler.
\<close>

theorem call_tool_payload:
  "(case extract_claims_body C arguments st of
      (Inr claims, st') \<Rightarrow>
        call_tool C st ''extract_claims'' arguments
          = (Inr [TextContent ''text'' (json_dumps claims)], st')
        \<and> json_loads_claims (json_dumps claims) = Some claims
    | (Inl e, st') \<Rightarrow>
        if is_Exception e
        then call_tool C st ''extract_claims'' arguments
               = (Inr [TextContent ''text'' (''Error during claim extraction: '' @ str_of e)], st')
             \<and> json_loads_claims (''Error during claim extraction: '' @ str_of e) = None
        else call_tool C st ''extract_claims'' arguments = (Inl e, st'))"
proof (cases "extract_claims_body C arguments st")
  case (Pair r st')
  show ?thesis
  proof (cases r)
    case (Inl e)
    show ?thesis
      using json_loads_error_message [of "str_of e"]
      by (simp add: call_tool_def Pair Inl del: append.simps)
  next
    case (Inr claims)
    show ?thesis
      by (simp add: call_tool_def Pair Inr json_loads_dumps)
  qed
qed

text \<open>
  Claim C1 as stated fails: when \<open>LLMClient()\<close> raises, the caller receives the
  error text, which is no list of claims.
\<close>

theorem call_tool_error_text_counterexample:
  "fst (call_tool failing_client_collaborators empty_state ''extract_claims''
          [''text_to_process'' \<mapsto> ''Paris is in France.''])
     = Inr [TextContent ''text'' ''Error during claim extraction: Unsupported LLM provider: gemini'']
   \<and> json_loads_claims ''Error during claim extraction: Unsupported LLM provider: gemini'' = None"
  by code_simp

theorem call_tool_payload_witness:
  "fst (call_tool stand_in_collaborators empty_state ''extract_claims''
          [''text_to_process'' \<mapsto> ''Paris is in France. Boom.''])
     = Inr [TextContent ''text'' (json_dumps [''Paris is in France.''])]
   \<and> json_loads_claims (json_dumps [''Paris is in France.'']) = Some [''Paris is in France.'']
   \<and> is_Exception (ValueError ''Unsupported LLM provider: gemini'')
   \<and> fst (call_tool failing_client_collaborators empty_state ''extract_claims''
          [''text_to_process'' \<mapsto> ''Paris is in France. Boom.''])
     = Inr [TextContent ''text'' ''Error during claim extraction: Unsupported LLM provider: gemini'']"
proof -
  have b: "extract_claims_body stand_in_collaborators
             [''text_to_process'' \<mapsto> ''Paris is in France. Boom.''] empty_state
     = (Inr [''Paris is in France.''],
        \<lparr>heap = [LLMClient_obj, ClaimifyPipeline_obj 0 ''The user did not provide a question.''],
         calls = [(Selection, 0), (Disambiguation, 0), (Decomposition, 0), (Selection, 1)]\<rparr>)"
    by code_simp
  have f: "extract_claims_body failing_client_collaborators
             [''text_to_process'' \<mapsto> ''Paris is in France. Boom.''] empty_state
     = (Inl (ValueError ''Unsupported LLM provider: gemini''), empty_state)"
    by code_simp
  show ?thesis
    using call_tool_payload [where C = stand_in_collaborators
        and arguments = "[''text_to_process'' \<mapsto> ''Paris is in France. Boom.'']"
        and st = empty_state]
      call_tool_payload [where C = failing_client_collaborators
        and arguments = "[''text_to_process'' \<mapsto> ''Paris is in France. Boom.'']"
        and st = empty_state]
    by (simp add: b f)
qed

section \<open>The run of the pipeline, sentence by sentence\<close>

lemma build_context_of:
  "i < length sentences \<Longrightarrow>
   build sentences (int i) (sentences_before cfg) (sentences_after cfg)
   = Inr (context_of cfg sentences i)"
  by (simp add: context_of_def build_def Let_def)

lemma selection_stage_log:
  "selection_stage cfg i c s q log =
     (fst (selection_stage cfg i c s q []), log @ [(Selection, i)])"
  by (simp add: selection_stage_def stage_request_def split: sum.splits)

lemma disambiguation_stage_log:
  "disambiguation_stage cfg i c s q log =
     (fst (disambiguation_stage cfg i c s q []), log @ [(Disambiguation, i)])"
  by (simp add: disambiguation_stage_def stage_request_def split: sum.splits)

lemma decomposition_stage_log:
  "decomposition_stage cfg i c r log =
     (fst (decomposition_stage cfg i c r []), log @ [(Decomposition, i)])"
  by (simp add: decomposition_stage_def stage_request_def split: sum.splits)

lemma process_sentence_chain:
  assumes "i < length sentences"
  shows "process_sentence cfg question sentences i log =
     (case selection_result cfg question sentences i of
        Inr (Proceed u) \<Rightarrow>
          (case disambiguation_result cfg question sentences i of
             Inr (Proceed rewritten) \<Rightarrow>
               (case decomposition_result cfg sentences i rewritten of
                  Inr (Proceed claims) \<Rightarrow>
                    (Inr claims, log @ [(Selection, i), (Disambiguation, i), (Decomposition, i)])
                | other \<Rightarrow>
                    (Inr [], log @ [(Selection, i), (Disambiguation, i), (Decomposition, i)]))
           | other \<Rightarrow> (Inr [], log @ [(Selection, i), (Disambiguation, i)]))
      | other \<Rightarrow> (Inr [], log @ [(Selection, i)]))"
  unfolding process_sentence_def build_context_of [OF assms]
    selection_result_def disambiguation_result_def decomposition_result_def
  apply (subst selection_stage_log)
  apply (subst disambiguation_stage_log)
  apply (subst decomposition_stage_log)
  apply (simp split: sum.splits verdict.splits)
  done


lemma process_sentence_split:
  assumes "i < length sentences"
  shows "process_sentence cfg question sentences i log =
           (Inr (sentence_claims cfg question sentences i),
            log @ sentence_calls cfg question sentences i)"
  unfolding sentence_claims_def sentence_calls_def
    process_sentence_chain [OF assms, of cfg question log]
    process_sentence_chain [OF assms, of cfg question "[]"]
  by (auto split: sum.splits verdict.splits)

lemma process_sentences_concat:
  assumes "\<forall>i \<in> set indices. i < length sentences"
  shows "process_sentences cfg question sentences indices all_claims log =
           (Inr (all_claims @ concat (map (sentence_claims cfg question sentences) indices)),
            log @ concat (map (sentence_calls cfg question sentences) indices))"
  using assms
proof (induction indices arbitrary: all_claims log)
  case Nil
  show ?case by simp
next
  case (Cons i rest)
  from Cons.prems have i: "i < length sentences" by simp
  from Cons.prems have r: "\<forall>j \<in> set rest. j < length sentences" by simp
  show ?case
    by (simp add: process_sentence_split [OF i] Cons.IH [OF r])
qed

lemma run_concat:
  "run cfg text question log =
     (Inr (concat (map (sentence_claims cfg question (segment (sentence_detector cfg) text))
                     [0..<length (segment (sentence_detector cfg) text)])),
      log @ concat (map (sentence_calls cfg question (segment (sentence_detector cfg) text))
                     [0..<length (segment (sentence_detector cfg) text)]))"
  by (simp add: run_def Let_def process_sentences_concat)

lemma sentence_calls_index:
  assumes "i < length sentences"
  shows "\<forall>c \<in> set (sentence_calls cfg question sentences i). snd c = i"
  unfolding sentence_calls_def process_sentence_chain [OF assms, of cfg question "[]"]
  by (auto split: sum.splits verdict.splits)

lemma sentence_rejected:
  assumes "i < length sentences"
    and "selection_result cfg question sentences i = Inr (Reject reason)"
  shows "sentence_calls cfg question sentences i = [(Selection, i)]"
    and "sentence_claims cfg question sentences i = []"
  unfolding sentence_calls_def sentence_claims_def
    process_sentence_chain [OF assms(1), of cfg question "[]"]
  by (simp_all add: assms(2))

lemma sentence_fails_no_claims:
  assumes "k < length sentences"
    and "sentence_fails cfg question sentences k"
  shows "sentence_claims cfg question sentences k = []"
  using assms(2)
  unfolding sentence_claims_def sentence_fails_def stage_failed_def
    process_sentence_chain [OF assms(1), of cfg question "[]"]
  by (auto split: sum.splits verdict.splits)

lemma normal_sentence_claims:
  assumes "i < length sentences"
    and "normal_claims cfg question sentences i = Some claims"
  shows "sentence_claims cfg question sentences i = claims"
  using assms(2)
  unfolding sentence_claims_def normal_claims_def
    process_sentence_chain [OF assms(1), of cfg question "[]"]
  by (auto split: sum.splits verdict.splits)

lemma upt_split_at:
  assumes "i \<le> n"
  shows "[0..<n] = [0..<i] @ [i..<n]"
proof -
  have "[0..<i + (n - i)] = [0..<i] @ [i..<i + (n - i)]"
    by (rule upt_add_eq_append) simp
  with assms show ?thesis by simp
qed

lemma upt_without:
  assumes "i < n"
  shows "[0..<n] = [0..<i] @ [i] @ [Suc i..<n]"
proof -
  have "[0..<n] = [0..<i] @ [i..<n]"
    using assms by (intro upt_split_at) simp
  also have "[i..<n] = i # [Suc i..<n]"
    using assms by (simp add: upt_conv_Cons)
  finally show ?thesis by simp
qed

lemma upt_around:
  assumes "0 < k" and "Suc k < n"
  shows "[0..<n] = [0..<k - 1] @ [k - 1, k, Suc k] @ [Suc (Suc k)..<n]"
proof -
  from assms obtain j where j: "k = Suc j" by (cases k) auto
  have "[0..<n] = [0..<j] @ [j..<n]"
    using assms j by (intro upt_split_at) simp
  also have "[j..<n] = j # Suc j # Suc (Suc j) # [Suc (Suc (Suc j))..<n]"
    using assms j by (simp add: upt_conv_Cons)
  finally show ?thesis using j by simp
qed

text \<open>
  Claim C2. Let sentence \<open>k\<close> of a text fail (a stage that runs for it raises
  or returns something unparseable) while the sentences \<open>k - 1\<close> and \<open>k + 1\<close>
  are processed normally. Then the run does not abort: it returns a claim list, which
  holds the claims of sentence \<open>k - 1\<close> directly followed by those of sentence
  \<open>k + 1\<close>, between the claims of the sentences before and after them; sentence
  \<open>k\<close> alone contributes nothing.
\<close>

theorem run_isolates_failing_sentence:
  assumes "sentences = segment (sentence_detector cfg) input_text"
    and "0 < k" and "Suc k < length sentences"
    and "sentence_fails cfg question sentences k"
    and "normal_claims cfg question sentences (k - 1) = Some claims_before"
    and "normal_claims cfg question sentences (Suc k) = Some claims_after"
  shows "fst (run cfg input_text question log) =
           Inr (concat (map (sentence_claims cfg question sentences) [0..<k - 1])
                @ claims_before @ claims_after
                @ concat (map (sentence_claims cfg question sentences)
                            [Suc (Suc k)..<length sentences]))
         \<and> sentence_claims cfg question sentences k = []"
proof -
  have k: "k < length sentences" and p: "k - 1 < length sentences"
    using assms(3) by simp_all
  have f: "sentence_claims cfg question sentences k = []"
    by (rule sentence_fails_no_claims [OF k assms(4)])
  have b: "sentence_claims cfg question sentences (k - 1) = claims_before"
    by (rule normal_sentence_claims [OF p assms(5)])
  have a: "sentence_claims cfg question sentences (Suc k) = claims_after"
    by (rule normal_sentence_claims [OF assms(3) assms(6)])
  have "fst (run cfg input_text question log) =
          Inr (concat (map (sentence_claims cfg question sentences) [0..<length sentences]))"
    unfolding assms(1) by (simp add: run_concat)
  also have "[0..<length sentences]
               = [0..<k - 1] @ [k - 1, k, Suc k] @ [Suc (Suc k)..<length sentences]"
    by (rule upt_around [OF assms(2) assms(3)])
  finally show ?thesis
    using f b a by simp
qed

theorem run_isolates_failing_sentence_witness:
  "[''Paris is in France.'', ''Boom.'', ''Rome is in Italy.'']
     = segment (sentence_detector stand_in) failing_text
   \<and> 0 < (1::nat)
   \<and> Suc 1 < length [''Paris is in France.'', ''Boom.'', ''Rome is in Italy.'']
   \<and> sentence_fails stand_in ''Which capitals?''
        [''Paris is in France.'', ''Boom.'', ''Rome is in Italy.''] 1
   \<and> normal_claims stand_in ''Which capitals?''
        [''Paris is in France.'', ''Boom.'', ''Rome is in Italy.''] (1 - 1)
       = Some [''Paris is in France.'']
   \<and> normal_claims stand_in ''Which capitals?''
        [''Paris is in France.'', ''Boom.'', ''Rome is in Italy.''] (Suc 1)
       = Some [''Rome is in Italy.'']
   \<and> fst (run stand_in failing_text ''Which capitals?'' [])
       = Inr [''Paris is in France.'', ''Rome is in Italy.'']"
proof -
  let ?ss = "[''Paris is in France.'', ''Boom.'', ''Rome is in Italy.'']"
  have h1: "?ss = segment (sentence_detector stand_in) failing_text"
    by code_simp
  have h2: "0 < (1::nat)"
    by simp
  have h3: "Suc 1 < length ?ss"
    by simp
  have h4: "sentence_fails stand_in ''Which capitals?'' ?ss 1"
    by code_simp
  have h5: "normal_claims stand_in ''Which capitals?'' ?ss (1 - 1) = Some [''Paris is in France.'']"
    by code_simp
  have h6: "normal_claims stand_in ''Which capitals?'' ?ss (Suc 1) = Some [''Rome is in Italy.'']"
    by code_simp
  note t = run_isolates_failing_sentence
    [where cfg = stand_in and input_text = failing_text and k = 1 and log = "[]", OF h1 h2 h3 h4 h5 h6]
  have r: "fst (run stand_in failing_text ''Which capitals?'' [])
       = Inr [''Paris is in France.'', ''Rome is in Italy.'']"
    using t [THEN conjunct1] by simp
  show ?thesis
    by (rule conjI [OF h1 conjI [OF h2 conjI [OF h3 conjI [OF h4 conjI [OF h5 conjI [OF h6 r]]]]]])
qed

text \<open>
  Claim C7. When the selection stage returns \<open>Reject\<close> for sentence \<open>i\<close>, no
  request of the disambiguation stage and none of the decomposition stage is sent for
  sentence \<open>i\<close> during the run, and the claim list of the run is made of the claims
  of the other sentences only: sentence \<open>i\<close> contributes none.
\<close>

theorem rejected_sentence_short_circuits:
  assumes "sentences = segment (sentence_detector cfg) input_text"
    and "i < length sentences"
    and "selection_result cfg question sentences i = Inr (Reject reason)"
  shows "(Disambiguation, i) \<notin> set (drop (length log) (snd (run cfg input_text question log)))
         \<and> (Decomposition, i) \<notin> set (drop (length log) (snd (run cfg input_text question log)))
         \<and> sentence_claims cfg question sentences i = []
         \<and> fst (run cfg input_text question log) =
             Inr (concat (map (sentence_claims cfg question sentences) [0..<i])
                  @ concat (map (sentence_claims cfg question sentences)
                              [Suc i..<length sentences]))"
proof -
  let ?new = "concat (map (sentence_calls cfg question sentences) [0..<length sentences])"
  have n: "drop (length log) (snd (run cfg input_text question log)) = ?new"
    unfolding assms(1) by (simp add: run_concat)
  have c: "sentence_calls cfg question sentences i = [(Selection, i)]"
    by (rule sentence_rejected(1) [OF assms(2) assms(3)])
  have z: "sentence_claims cfg question sentences i = []"
    by (rule sentence_rejected(2) [OF assms(2) assms(3)])
  have only: "s = Selection" if "(s, i) \<in> set ?new" for s
  proof -
    from that obtain j where j: "j < length sentences"
      and m: "(s, i) \<in> set (sentence_calls cfg question sentences j)"
      by auto
    from sentence_calls_index [OF j, of cfg question] m have "j = i" by fastforce
    with m c show ?thesis by simp
  qed
  have d: "(Disambiguation, i) \<notin> set ?new" using only [of Disambiguation] by auto
  have e: "(Decomposition, i) \<notin> set ?new" using only [of Decomposition] by auto
  have "fst (run cfg input_text question log) =
          Inr (concat (map (sentence_claims cfg question sentences) [0..<length sentences]))"
    unfolding assms(1) by (simp add: run_concat)
  also have "[0..<length sentences] = [0..<i] @ [i] @ [Suc i..<length sentences]"
    by (rule upt_without [OF assms(2)])
  finally have r: "fst (run cfg input_text question log) =
             Inr (concat (map (sentence_claims cfg question sentences) [0..<i])
                  @ concat (map (sentence_claims cfg question sentences)
                              [Suc i..<length sentences]))"
    by (simp add: z)
  from d e z r show ?thesis unfolding n by (intro conjI)
qed

theorem rejected_sentence_short_circuits_witness:
  "[''Paris is in France.'', ''I think this is nice.'', ''Rome is in Italy.'']
     = segment (sentence_detector stand_in) rejected_text
   \<and> 1 < length [''Paris is in France.'', ''I think this is nice.'', ''Rome is in Italy.'']
   \<and> selection_result stand_in ''Which capitals?''
        [''Paris is in France.'', ''I think this is nice.'', ''Rome is in Italy.''] 1
       = Inr (Reject ''no verifiable claim'')
   \<and> (Disambiguation, 1) \<notin> set (snd (run stand_in rejected_text ''Which capitals?'' []))
   \<and> (Decomposition, 1) \<notin> set (snd (run stand_in rejected_text ''Which capitals?'' []))
   \<and> fst (run stand_in rejected_text ''Which capitals?'' [])
       = Inr [''Paris is in France.'', ''Rome is in Italy.'']
   \<and> snd (run stand_in rejected_text ''Which capitals?'' [])
       = [(Selection, 0), (Disambiguation, 0), (Decomposition, 0), (Selection, 1),
          (Selection, 2), (Disambiguation, 2), (Decomposition, 2)]"
proof -
  let ?ss = "[''Paris is in France.'', ''I think this is nice.'', ''Rome is in Italy.'']"
  have h1: "?ss = segment (sentence_detector stand_in) rejected_text"
    by code_simp
  have h2: "1 < length ?ss"
    by simp
  have h3: "selection_result stand_in ''Which capitals?'' ?ss 1 = Inr (Reject ''no verifiable claim'')"
    by code_simp
  note t = rejected_sentence_short_circuits
    [where cfg = stand_in and input_text = rejected_text and i = 1 and log = "[]", OF h1 h2 h3]
  have d: "(Disambiguation, 1) \<notin> set (snd (run stand_in rejected_text ''Which capitals?'' []))"
    using t [THEN conjunct1] by simp
  have e: "(Decomposition, 1) \<notin> set (snd (run stand_in rejected_text ''Which capitals?'' []))"
    using t [THEN conjunct2, THEN conjunct1] by simp
  have s0: "sentence_claims stand_in ''Which capitals?'' ?ss 0 = [''Paris is in France.'']"
    by code_simp
  have s2: "sentence_claims stand_in ''Which capitals?'' ?ss (Suc (Suc 0)) = [''Rome is in Italy.'']"
    by code_simp
  have r: "fst (run stand_in rejected_text ''Which capitals?'' [])
       = Inr [''Paris is in France.'', ''Rome is in Italy.'']"
    using t [THEN conjunct2, THEN conjunct2, THEN conjunct2]
    by (simp add: s0 s2 upt_conv_Cons)
  have c: "snd (run stand_in rejected_text ''Which capitals?'' [])
       = [(Selection, 0), (Disambiguation, 0), (Decomposition, 0), (Selection, 1),
          (Selection, 2), (Disambiguation, 2), (Decomposition, 2)]"
    by code_simp
  show ?thesis
    by (rule conjI [OF h1 conjI [OF h2 conjI [OF h3 conjI [OF d conjI [OF e conjI [OF r c]]]]]])
qed

section \<open>No state shared between calls\<close>

lemma run_result_any_log:
  "fst (run cfg t question log) = fst (run cfg t question log')"
  by (simp add: run_concat)

lemma extract_claims_body_spec:
  "extract_claims_body (spec_collaborators cfg client_init pipeline_init) arguments st =
     (case client_init of
        Some e \<Rightarrow> (Inl e, st)
      | None \<Rightarrow>
          (case pipeline_init (dict_get arguments ''question'' ''The user did not provide a question.'') of
             Some e \<Rightarrow> (Inl e, st\<lparr>heap := heap st @ [LLMClient_obj]\<rparr>)
           | None \<Rightarrow>
               (fst (run cfg (dict_get arguments ''text_to_process'' [])
                       (dict_get arguments ''question'' ''The user did not provide a question.'')
                       (calls st)),
                st\<lparr>heap := heap st @
                       [LLMClient_obj,
                        ClaimifyPipeline_obj (length (heap st))
                          (dict_get arguments ''question'' ''The user did not provide a question.'')],
                   calls := snd (run cfg (dict_get arguments ''text_to_process'' [])
                       (dict_get arguments ''question'' ''The user did not provide a question.'')
                       (calls st))\<rparr>)))"
  by (simp add: extract_claims_body_def Let_def new_LLMClient_cases new_ClaimifyPipeline_cases
      pipeline_run_def spec_collaborators_def ClaimifyPipeline_run_spec_def nth_append
      split: option.splits prod.splits)

lemma extract_claims_body_spec_any_state:
  "fst (extract_claims_body (spec_collaborators cfg client_init pipeline_init) arguments st)
   = fst (extract_claims_body (spec_collaborators cfg client_init pipeline_init) arguments st')"
  unfolding extract_claims_body_spec
  using run_result_any_log [of cfg _ _ "calls st" "calls st'"]
  by (simp split: option.splits)

lemma call_tool_result:
  "fst (call_tool C st ''extract_claims'' arguments) =
     (case fst (extract_claims_body C arguments st) of
        Inr claims \<Rightarrow> Inr [TextContent ''text'' (json_dumps claims)]
      | Inl e \<Rightarrow>
          if is_Exception e
          then Inr [TextContent ''text'' (''Error during claim extraction: '' @ str_of e)]
          else Inl e)"
  by (simp add: call_tool_def split: prod.splits sum.splits)

lemma call_tool_spec_any_state:
  "fst (call_tool (spec_collaborators cfg client_init pipeline_init) st ''extract_claims'' arguments)
   = fst (call_tool (spec_collaborators cfg client_init pipeline_init) st' ''extract_claims'' arguments)"
  unfolding call_tool_result
  using extract_claims_body_spec_any_state [of cfg client_init pipeline_init arguments st st']
  by simp

text \<open>
  Claim C9. With the pipeline of the specification behind \<open>pipeline.run\<close>, a call
  of \<open>extract_claims\<close> leaves every object that existed before it untouched; its
  client is a new object unless the constructor raises, and when neither constructor
  raises the call adds exactly one client and one pipeline, the pipeline holding that
  new client and the question of this call. What the call returns is the same after
  any earlier call as without it.
\<close>

theorem call_tool_fresh_objects_no_shared_state:
  "take (length (heap st))
     (heap (snd (call_tool (spec_collaborators cfg client_init pipeline_init) st
                   ''extract_claims'' arguments)))
     = heap st
   \<and> (client_init = None \<longrightarrow>
        length (heap st)
          < length (heap (snd (call_tool (spec_collaborators cfg client_init pipeline_init) st
                                ''extract_claims'' arguments)))
        \<and> heap (snd (call_tool (spec_collaborators cfg client_init pipeline_init) st
                        ''extract_claims'' arguments)) ! length (heap st)
            = LLMClient_obj)
   \<and> (client_init = None
        \<and> pipeline_init (dict_get arguments ''question'' ''The user did not provide a question.'')
            = None \<longrightarrow>
        heap (snd (call_tool (spec_collaborators cfg client_init pipeline_init) st
                     ''extract_claims'' arguments))
          = heap st @
              [LLMClient_obj,
               ClaimifyPipeline_obj (length (heap st))
                 (dict_get arguments ''question'' ''The user did not provide a question.'')])
   \<and> fst (call_tool (spec_collaborators cfg client_init pipeline_init)
            (snd (call_tool (spec_collaborators cfg client_init pipeline_init) st
                    earlier_name earlier_arguments))
            ''extract_claims'' arguments)
       = fst (call_tool (spec_collaborators cfg client_init pipeline_init) st
                ''extract_claims'' arguments)"
proof -
  let ?C = "spec_collaborators cfg client_init pipeline_init"
  let ?q = "dict_get arguments ''question'' ''The user did not provide a question.''"
  have h: "heap (snd (call_tool ?C st ''extract_claims'' arguments)) =
     heap st @
       (case client_init of
          Some e \<Rightarrow> []
        | None \<Rightarrow>
            LLMClient_obj #
              (case pipeline_init ?q of
                 Some e \<Rightarrow> []
               | None \<Rightarrow> [ClaimifyPipeline_obj (length (heap st)) ?q]))"
    by (simp add: heap_call_tool heap_extract_claims_body spec_collaborators_def
        split: option.splits)
  have a: "take (length (heap st)) (heap (snd (call_tool ?C st ''extract_claims'' arguments)))
           = heap st"
    unfolding h by simp
  have b: "client_init = None \<longrightarrow>
        length (heap st) < length (heap (snd (call_tool ?C st ''extract_claims'' arguments)))
        \<and> heap (snd (call_tool ?C st ''extract_claims'' arguments)) ! length (heap st)
            = LLMClient_obj"
    unfolding h by (simp add: nth_append)
  have c: "client_init = None \<and> pipeline_init ?q = None \<longrightarrow>
        heap (snd (call_tool ?C st ''extract_claims'' arguments))
          = heap st @ [LLMClient_obj, ClaimifyPipeline_obj (length (heap st)) ?q]"
    unfolding h by simp
  have d: "fst (call_tool ?C (snd (call_tool ?C st earlier_name earlier_arguments))
            ''extract_claims'' arguments)
       = fst (call_tool ?C st ''extract_claims'' arguments)"
    by (rule call_tool_spec_any_state)
  show ?thesis
    by (rule conjI [OF a conjI [OF b conjI [OF c d]]])
qed

theorem call_tool_fresh_objects_no_shared_state_witness:
  "((None :: error option) = None
     \<and> no_error (dict_get [''text_to_process'' \<mapsto> rejected_text, ''question'' \<mapsto> ''Which capitals?'']
                    ''question'' ''The user did not provide a question.'') = None)
   \<and> heap (snd (call_tool (spec_collaborators stand_in None no_error) empty_state ''extract_claims''
                  [''text_to_process'' \<mapsto> rejected_text, ''question'' \<mapsto> ''Which capitals?'']))
       = heap empty_state @
           [LLMClient_obj,
            ClaimifyPipeline_obj (length (heap empty_state))
              (dict_get [''text_to_process'' \<mapsto> rejected_text, ''question'' \<mapsto> ''Which capitals?'']
                 ''question'' ''The user did not provide a question.'')]
   \<and> fst (call_tool (spec_collaborators stand_in None no_error)
            (snd (call_tool (spec_collaborators stand_in None no_error) empty_state
                    ''extract_claims'' [''text_to_process'' \<mapsto> failing_text]))
            ''extract_claims''
            [''text_to_process'' \<mapsto> rejected_text, ''question'' \<mapsto> ''Which capitals?''])
       = fst (call_tool (spec_collaborators stand_in None no_error) empty_state ''extract_claims''
                [''text_to_process'' \<mapsto> rejected_text, ''question'' \<mapsto> ''Which capitals?''])
   \<and> heap (snd (call_tool (spec_collaborators stand_in None no_error)
            (snd (call_tool (spec_collaborators stand_in None no_error) empty_state
                    ''extract_claims'' [''text_to_process'' \<mapsto> failing_text]))
            ''extract_claims''
            [''text_to_process'' \<mapsto> rejected_text, ''question'' \<mapsto> ''Which capitals?'']))
       = [LLMClient_obj, ClaimifyPipeline_obj 0 ''The user did not provide a question.'',
          LLMClient_obj, ClaimifyPipeline_obj 2 ''Which capitals?'']"
proof -
  let ?A = "[''text_to_process'' \<mapsto> rejected_text, ''question'' \<mapsto> ''Which capitals?'']"
  have h: "(None :: error option) = None
     \<and> no_error (dict_get ?A ''question'' ''The user did not provide a question.'') = None"
    by (simp add: no_error_def)
  note t = call_tool_fresh_objects_no_shared_state
    [where cfg = stand_in and client_init = None and pipeline_init = no_error
       and st = empty_state and arguments = ?A
       and earlier_name = "''extract_claims''"
       and earlier_arguments = "[''text_to_process'' \<mapsto> failing_text]"]
  note c = mp [OF t [THEN conjunct2, THEN conjunct2, THEN conjunct1] h]
  note d = t [THEN conjunct2, THEN conjunct2, THEN conjunct2]
  have e: "heap (snd (call_tool (spec_collaborators stand_in None no_error)
            (snd (call_tool (spec_collaborators stand_in None no_error) empty_state
                    ''extract_claims'' [''text_to_process'' \<mapsto> failing_text]))
            ''extract_claims'' ?A))
       = [LLMClient_obj, ClaimifyPipeline_obj 0 ''The user did not provide a question.'',
          LLMClient_obj, ClaimifyPipeline_obj 2 ''Which capitals?'']"
    by code_simp
  show ?thesis
    by (rule conjI [OF h conjI [OF c conjI [OF d e]]])
qed

section \<open>Empty input\<close>







section \<open>The context window\<close>

lemma split_on_no_sep:
  "sep \<notin> set s \<Longrightarrow> split_on sep s = [s]"
  by (induction s) auto

lemma split_on_append_sep:
  "sep \<notin> set s \<Longrightarrow> split_on sep (s @ sep # rest) = s # split_on sep rest"
  by (induction s) auto

lemma split_on_join:
  assumes "xs \<noteq> []" and "\<forall>x \<in> set xs. sep \<notin> set x"
  shows "split_on sep (join [sep] xs) = xs"
  using assms
proof (induction "[sep]" xs rule: join.induct)
  case 1
  then show ?case by simp
next
  case (2 x)
  then show ?case by (simp add: split_on_no_sep)
next
  case (3 x y ys)
  then show ?case by (simp add: split_on_append_sep)
qed

lemma length_window_indices:
  assumes "0 \<le> i" and "i < n" and "0 \<le> b" and "0 \<le> a"
  shows "length (window_indices n i b a) = nat (min i b + min (n - 1 - i) a + 1)"
proof -
  have "min (n - 1) (i + a) - max 0 (i - b) + 1 = min i b + min (n - 1 - i) a + 1"
    using assms by linarith
  then show ?thesis
    unfolding window_indices_def by simp
qed

lemma window_indices_in_range:
  "\<forall>j \<in> set (window_indices n i b a). 0 \<le> j \<and> j \<le> n - 1"
  unfolding window_indices_def by auto

text \<open>
  Claim C6. For a list of \<open>n\<close> sentences, a valid target index \<open>i\<close> and window
  sizes \<open>b\<close> and \<open>a\<close> that are not negative, every index of the window lies in
  \<open>[0, n - 1]\<close>, the window has exactly \<open>min(i, b) + min(n - 1 - i, a) + 1\<close>
  indices, and the builder does not fail: it returns the sentences at these indices,
  one per line. When no sentence holds a line break itself, as after segmentation,
  splitting the context at the line breaks gives that same number of lines.
\<close>

theorem build_clamps_window:
  assumes "0 \<le> i" and "i < int (length sentences)" and "0 \<le> b" and "0 \<le> a"
  shows "(\<forall>j \<in> set (window_indices (int (length sentences)) i b a).
            0 \<le> j \<and> j \<le> int (length sentences) - 1)
         \<and> length (window_indices (int (length sentences)) i b a)
             = nat (min i b + min (int (length sentences) - 1 - i) a + 1)
         \<and> build sentences i b a
             = Inr (join [CHR 0x0A]
                     (map (\<lambda>j. sentences ! nat j)
                        (window_indices (int (length sentences)) i b a)))
         \<and> ((\<forall>s \<in> set sentences. CHR 0x0A \<notin> set s) \<longrightarrow>
              map_sum id (\<lambda>context. length (split_on (CHR 0x0A) context)) (build sentences i b a)
              = Inr (nat (min i b + min (int (length sentences) - 1 - i) a + 1)))"
proof -
  let ?n = "int (length sentences)"
  let ?w = "window_indices ?n i b a"
  let ?lines = "map (\<lambda>j. sentences ! nat j) ?w"
  have r: "\<forall>j \<in> set ?w. 0 \<le> j \<and> j \<le> ?n - 1"
    by (rule window_indices_in_range)
  have l: "length ?w = nat (min i b + min (?n - 1 - i) a + 1)"
    by (rule length_window_indices [OF assms])
  have bd: "build sentences i b a = Inr (join [CHR 0x0A] ?lines)"
    using assms by (simp add: build_def Let_def)
  have sp: "(\<forall>s \<in> set sentences. CHR 0x0A \<notin> set s) \<longrightarrow>
              map_sum id (\<lambda>context. length (split_on (CHR 0x0A) context)) (build sentences i b a)
              = Inr (nat (min i b + min (?n - 1 - i) a + 1))"
  proof
    assume nl: "\<forall>s \<in> set sentences. CHR 0x0A \<notin> set s"
    have ne: "?lines \<noteq> []"
      using l assms by auto
    have "\<forall>x \<in> set ?lines. CHR 0x0A \<notin> set x"
    proof
      fix x assume "x \<in> set ?lines"
      then obtain j where j: "j \<in> set ?w" and x: "x = sentences ! nat j" by auto
      from r j have "nat j < length sentences" by auto
      then have "x \<in> set sentences" using x by simp
      with nl show "CHR 0x0A \<notin> set x" by simp
    qed
    then have "split_on (CHR 0x0A) (join [CHR 0x0A] ?lines) = ?lines"
      by (rule split_on_join [OF ne])
    then show "map_sum id (\<lambda>context. length (split_on (CHR 0x0A) context)) (build sentences i b a)
              = Inr (nat (min i b + min (?n - 1 - i) a + 1))"
      by (simp add: bd l)
  qed
  show ?thesis
    by (rule conjI [OF r conjI [OF l conjI [OF bd sp]]])
qed

theorem build_clamps_window_witness:
  "(0::int) \<le> 0
   \<and> (0::int) < int (length [''One.'', ''Two.'', ''Three.'', ''Four.''])
   \<and> (0::int) \<le> 2
   \<and> (0::int) \<le> 1
   \<and> list_all (\<lambda>s. CHR 0x0A \<notin> set s) [''One.'', ''Two.'', ''Three.'', ''Four.'']
   \<and> length (window_indices (int (length [''One.'', ''Two.'', ''Three.'', ''Four.''])) 0 2 1) = 2
   \<and> build [''One.'', ''Two.'', ''Three.'', ''Four.''] 0 2 1 = Inr (''One.'' @ [CHR 0x0A] @ ''Two.'')
   \<and> map_sum id (\<lambda>context. length (split_on (CHR 0x0A) context))
         (build [''One.'', ''Two.'', ''Three.'', ''Four.''] 0 2 1) = Inr 2"
proof -
  let ?ss = "[''One.'', ''Two.'', ''Three.'', ''Four.'']"
  have h1: "(0::int) \<le> 0" by simp
  have h2: "(0::int) < int (length ?ss)" by simp
  have h3: "(0::int) \<le> 2" by simp
  have h4: "(0::int) \<le> 1" by simp
  have h5: "\<forall>s \<in> set ?ss. CHR 0x0A \<notin> set s" by simp
  have h5': "list_all (\<lambda>s. CHR 0x0A \<notin> set s) ?ss" by simp
  note t = build_clamps_window [where sentences = ?ss, OF h1 h2 h3 h4]
  have n: "nat (min 0 2 + min (int (length ?ss) - 1 - 0) 1 + 1) = 2" by simp
  have l: "length (window_indices (int (length ?ss)) 0 2 1) = 2"
    using t [THEN conjunct2, THEN conjunct1] by (simp only: n)
  have w: "join [CHR 0x0A]
             (map (\<lambda>j. ?ss ! nat j) (window_indices (int (length ?ss)) 0 2 1))
           = ''One.'' @ [CHR 0x0A] @ ''Two.''"
    by code_simp
  have b: "build ?ss 0 2 1 = Inr (''One.'' @ [CHR 0x0A] @ ''Two.'')"
    using t [THEN conjunct2, THEN conjunct2, THEN conjunct1] by (simp only: w)
  have c: "map_sum id (\<lambda>context. length (split_on (CHR 0x0A) context)) (build ?ss 0 2 1) = Inr 2"
    using mp [OF t [THEN conjunct2, THEN conjunct2, THEN conjunct2] h5] by (simp only: n)
  show ?thesis
    by (rule conjI [OF h1 conjI [OF h2 conjI [OF h3 conjI [OF h4 conjI [OF h5' conjI [OF l conjI [OF b c]]]]]]])
qed

section \<open>The text of the test script\<close>



end
